theory Spec2Isabelle
  imports Complex_Main "HOL-Library.Log_Nat"
begin

section \<open>JavaScript numbers\<close>

text \<open>
  A JavaScript number is an IEEE 754 binary64 value. \<open>Fin q\<close> is the finite double whose
  exact value is the rational \<open>q\<close> (\<open>Fin 0\<close> is \<open>+0\<close>), \<open>NegZero\<close> is \<open>-0\<close>.
  Every NaN is the same value to a JavaScript program.
\<close>

datatype jsnum = NaN | PosInf | NegInf | NegZero | Fin rat

text \<open>\<open>binary_exponent q\<close> is \<open>\<lfloor>log\<^sub>2 \<bar>q\<bar>\<rfloor>\<close> for \<open>q \<noteq> 0\<close>.\<close>

definition binary_exponent :: "rat \<Rightarrow> int" where
  "binary_exponent q =
     (let (a, b) = quotient_of \<bar>q\<bar>; e = bitlen a - bitlen b
      in if 2 powi e \<le> \<bar>q\<bar> then e else e - 1)"

definition round_half_even :: "rat \<Rightarrow> int" where
  "round_half_even n =
     (let f = \<lfloor>n\<rfloor>; r = n - of_int f
      in if r < 1 / 2 then f
         else if 1 / 2 < r then f + 1
         else if even f then f else f + 1)"

text \<open>
  Rounding of an exact result to binary64, to nearest with ties to even: 53 significant
  bits, least exponent \<open>-1022\<close> (below it the spacing stays \<open>2 powi (- 1074)\<close>), and a
  rounded magnitude whose exponent is above \<open>1023\<close> (that is, \<open>2 powi 1024\<close> or more) is
  an infinity. An exact zero rounds to \<open>+0\<close>.
\<close>

definition round_double :: "rat \<Rightarrow> jsnum" where
  "round_double q =
     (let e = max (binary_exponent q) (- 1022);
          ulp = 2 powi (e - 52);
          m = of_int (round_half_even (\<bar>q\<bar> / ulp)) * ulp
      in if m = 0 then (if q < 0 then NegZero else Fin 0)
         else if 1023 < binary_exponent m then (if q < 0 then NegInf else PosInf)
         else Fin (if q < 0 then - m else m))"

text \<open>
  Unary minus, \<open>+\<close> and \<open>-\<close> on numbers (ECMAScript \<open>Number::unaryMinus\<close>,
  \<open>Number::add\<close>, \<open>Number::subtract\<close>): the sum of two finite numbers is their exact
  sum rounded, but \<open>-0 + -0\<close> is \<open>-0\<close>; \<open>x - y\<close> is \<open>x + (-y)\<close>.
\<close>

fun js_neg :: "jsnum \<Rightarrow> jsnum" where
  "js_neg NaN = NaN"
| "js_neg PosInf = NegInf"
| "js_neg NegInf = PosInf"
| "js_neg NegZero = Fin 0"
| "js_neg (Fin q) = (if q = 0 then NegZero else Fin (- q))"

fun js_add :: "jsnum \<Rightarrow> jsnum \<Rightarrow> jsnum" where
  "js_add NaN _ = NaN"
| "js_add _ NaN = NaN"
| "js_add PosInf NegInf = NaN"
| "js_add NegInf PosInf = NaN"
| "js_add PosInf _ = PosInf"
| "js_add _ PosInf = PosInf"
| "js_add NegInf _ = NegInf"
| "js_add _ NegInf = NegInf"
| "js_add NegZero NegZero = NegZero"
| "js_add NegZero (Fin q) = round_double q"
| "js_add (Fin p) NegZero = round_double p"
| "js_add (Fin p) (Fin q) = round_double (p + q)"

definition js_sub :: "jsnum \<Rightarrow> jsnum \<Rightarrow> jsnum" where
  "js_sub x y = js_add x (js_neg y)"

text \<open>\<open>===\<close> on two numbers: NaN equals nothing, the two zeros are equal.\<close>

fun is_zero :: "jsnum \<Rightarrow> bool" where
  "is_zero NegZero = True"
| "is_zero (Fin q) = (q = 0)"
| "is_zero _ = False"

definition strict_equal :: "jsnum \<Rightarrow> jsnum \<Rightarrow> bool" where
  "strict_equal x y = (x \<noteq> NaN \<and> y \<noteq> NaN \<and> (x = y \<or> is_zero x \<and> is_zero y))"

section \<open>JavaScript values\<close>

text \<open>
  The values a caller can hand to the chamber: \<open>undefined\<close>, and what \<open>express.json()\<close>
  decodes from a request body. Arrays are dense, as those built by \<open>JSON.parse\<close> and by
  the console's \<open>split(',').map(...)\<close> are.
\<close>

datatype jsval =
    JUndefined
  | JNull
  | JBool bool
  | JNum jsnum
  | JStr string
  | JArr "jsval list"
  | JObj "(string \<times> jsval) list"

abbreviation num :: "rat \<Rightarrow> jsval" where
  "num q \<equiv> JNum (Fin q)"

fun typeof :: "jsval \<Rightarrow> string" where
  "typeof JUndefined = ''undefined''"
| "typeof JNull = ''object''"
| "typeof (JBool _) = ''boolean''"
| "typeof (JNum _) = ''number''"
| "typeof (JStr _) = ''string''"
| "typeof (JArr _) = ''object''"
| "typeof (JObj _) = ''object''"

text \<open>
  The callback of the first \<open>every\<close>: \<open>num => typeof num === 'number' && !isNaN(num)\<close>.
  \<open>&&\<close> evaluates \<open>isNaN\<close> on numbers only.
\<close>

definition is_valid_number :: "jsval \<Rightarrow> bool" where
  "is_valid_number v = (typeof v = ''number'' \<and> (case v of JNum n \<Rightarrow> n \<noteq> NaN | _ \<Rightarrow> False))"

text \<open>
  The operators \<open>-\<close> and \<open>+\<close> as the chamber applies them: to array elements that have
  passed \<open>is_valid_number\<close> and to the difference of a valid result, hence to numbers.
  The coercions of other operands are never run and are left unspecified.
\<close>

fun js_minus :: "jsval \<Rightarrow> jsval \<Rightarrow> jsnum" where
  "js_minus (JNum x) (JNum y) = js_sub x y"
| "js_minus _ _ = undefined"

fun js_plus :: "jsval \<Rightarrow> jsval \<Rightarrow> jsval" where
  "js_plus (JNum x) (JNum y) = JNum (js_add x y)"
| "js_plus _ _ = undefined"

text \<open>\<open>Number.isFinite\<close>: the numbers the specification calls finite.\<close>

fun isFinite :: "jsval \<Rightarrow> bool" where
  "isFinite (JNum (Fin _)) = True"
| "isFinite (JNum NegZero) = True"
| "isFinite _ = False"

section \<open>The class EchoChamber\<close>

text \<open>
  The message strings of the source, each by name; the literals begin with a cross mark or
  a check mark outside ASCII.
  \<^item> \<open>MsgNotArray\<close>: \<^verbatim>\<open>Error: Input must be an array\<close>
  \<^item> \<open>MsgTooShort\<close>: \<^verbatim>\<open>Error: Sequence must contain at least 2 numbers\<close>
  \<^item> \<open>MsgNotNumbers\<close>: \<^verbatim>\<open>Error: All elements must be valid numbers\<close>
  \<^item> \<open>MsgNotArithmetic\<close>: \<^verbatim>\<open>Error: This is not an arithmetic progression. The differences
    between consecutive numbers are not constant.\<close>
  \<^item> \<open>MsgValid\<close>: \<^verbatim>\<open>Valid arithmetic progression detected!\<close>
  \<^item> \<open>MsgNextNumber n\<close>: the template \<^verbatim>\<open>The next number in the sequence is: ${nextNumber}\<close>
    with \<open>nextNumber = n\<close>.
\<close>

datatype msg_text =
    MsgNotArray
  | MsgTooShort
  | MsgNotNumbers
  | MsgNotArithmetic
  | MsgValid
  | MsgNextNumber jsval

text \<open>The object \<open>validateSequence\<close> returns; \<open>difference\<close> is \<open>null\<close> or a number.\<close>

record validation =
  isValid :: bool
  difference :: jsval
  message :: msg_text

text \<open>
  The object \<open>predictNext\<close> returns. The failure object has no \<open>commonDifference\<close>
  property; reading it gives \<open>undefined\<close>.
\<close>

record prediction =
  success :: bool
  nextNumber :: jsval
  commonDifference :: jsval
  message :: msg_text

text \<open>An entry of \<open>echoMemories\<close>.\<close>

record memory =
  sequence :: "jsval list"
  nextNumber :: jsval
  commonDifference :: jsval
  timestamp :: string
  predictionIndex :: nat

text \<open>
  The fields of an instance. \<open>predictionCount\<close> and \<open>predictionIndex\<close> are JavaScript
  numbers that count entries of one array; an array holds fewer than \<open>2 ^ 32\<close> entries,
  and numbers count exactly up to \<open>2 ^ 53\<close>, so they are natural numbers here.
\<close>

record EchoChamber =
  echoMemories :: "memory list"
  predictionCount :: nat

definition new_EchoChamber :: EchoChamber where
  "new_EchoChamber = \<lparr>echoMemories = [], predictionCount = 0\<rparr>"

text \<open>
  \<^verbatim>\<open>for (let i = 1; i < sequence.length; i++)
    differences.push(sequence[i] - sequence[i - 1]);\<close>
\<close>

function differences_loop :: "jsval list \<Rightarrow> nat \<Rightarrow> jsnum list \<Rightarrow> jsnum list" where
  "differences_loop seq i differences =
     (if i < length seq
      then differences_loop seq (i + 1)
             (differences @ [js_minus (seq ! i) (seq ! (i - 1))])
      else differences)"
  by pat_completeness auto
termination
  by (relation "measure (\<lambda>(seq, i, differences). length seq - i)") auto

declare differences_loop.simps [simp del]

text \<open>Every method takes the instance \<open>this\<close> and returns its result with the instance.\<close>

definition validateSequence :: "jsval \<Rightarrow> EchoChamber \<Rightarrow> validation \<times> EchoChamber" where
  "validateSequence seq this =
     (case seq of
        JArr elems \<Rightarrow>
          if length elems < 2 then
            (\<lparr>isValid = False, difference = JNull, message = MsgTooShort\<rparr>, this)
          else if \<not> list_all is_valid_number elems then
            (\<lparr>isValid = False, difference = JNull, message = MsgNotNumbers\<rparr>, this)
          else
            let differences = differences_loop elems 1 [];
                firstDifference = differences ! 0;
                isArithmetic = list_all (\<lambda>d. strict_equal d firstDifference) differences
            in if \<not> isArithmetic then
                 (\<lparr>isValid = False, difference = JNull, message = MsgNotArithmetic\<rparr>, this)
               else
                 (\<lparr>isValid = True, difference = JNum firstDifference, message = MsgValid\<rparr>,
                  this)
      | _ \<Rightarrow> (\<lparr>isValid = False, difference = JNull, message = MsgNotArray\<rparr>, this))"

text \<open>
  \<open>elements\<close> reads the array behind \<open>sequence[sequence.length - 1]\<close> and
  \<open>[...sequence]\<close>; both run after a valid result only, so on an array.
  The parameter \<open>seq\<close> is the source's \<open>sequence\<close>, and
  \<open>now\<close> is what \<open>new Date().toLocaleTimeString()\<close> returns at the call.
\<close>

fun elements :: "jsval \<Rightarrow> jsval list" where
  "elements (JArr elems) = elems"
| "elements _ = undefined"

definition predictNext :: "jsval \<Rightarrow> string \<Rightarrow> EchoChamber \<Rightarrow> prediction \<times> EchoChamber" where
  "predictNext seq now this =
     (let (validation, this) = validateSequence seq this
      in if \<not> isValid validation then
           (\<lparr>success = False, nextNumber = JNull, commonDifference = JUndefined,
             message = validation.message validation\<rparr>, this)
         else
           let nextNum =
                 js_plus (elements seq ! (length (elements seq) - 1))
                   (difference validation);
               this = this\<lparr>echoMemories := echoMemories this @
                 [\<lparr>sequence = elements seq,
                   nextNumber = nextNum,
                   commonDifference = difference validation,
                   timestamp = now,
                   predictionIndex = predictionCount this + 1\<rparr>]\<rparr>;
               this = this\<lparr>predictionCount := predictionCount this + 1\<rparr>
           in (\<lparr>success = True, nextNumber = nextNum,
                commonDifference = difference validation,
                message = MsgNextNumber nextNum\<rparr>, this))"

definition getMemories :: "EchoChamber \<Rightarrow> memory list \<times> EchoChamber" where
  "getMemories this = (echoMemories this, this)"

definition clearMemories :: "EchoChamber \<Rightarrow> unit \<times> EchoChamber" where
  "clearMemories this = ((), this\<lparr>echoMemories := [], predictionCount := 0\<rparr>)"

subsection \<open>Sequences of method calls on one instance\<close>

datatype call =
    ValidateSequence jsval
  | PredictNext jsval string
  | GetMemories
  | ClearMemories

fun exec :: "call \<Rightarrow> EchoChamber \<Rightarrow> EchoChamber" where
  "exec (ValidateSequence v) this = snd (validateSequence v this)"
| "exec (PredictNext v now) this = snd (predictNext v now this)"
| "exec GetMemories this = snd (getMemories this)"
| "exec ClearMemories this = snd (clearMemories this)"

definition run :: "call list \<Rightarrow> EchoChamber \<Rightarrow> EchoChamber" where
  "run calls this = fold exec calls this"

text \<open>How many of the calls, run in order from \<open>this\<close>, return \<open>success: true\<close>.\<close>

fun successes :: "call list \<Rightarrow> EchoChamber \<Rightarrow> nat" where
  "successes [] this = 0"
| "successes (PredictNext v now # calls) this =
     (let (result, this') = predictNext v now this
      in (if success result then 1 else 0) + successes calls this')"
| "successes (c # calls) this = successes calls (exec c this)"

section \<open>The web server\<close>

text \<open>
  The module keeps one \<open>chamber\<close> for all requests; a handler takes it and returns the
  response with it. \<open>res.json\<close> answers with status 200 and the object as body.
\<close>

datatype json_body =
    MemoriesBody "memory list" nat
  | TestBody bool prediction string

record response =
  status :: nat
  body :: json_body

text \<open>\<open>app.get('/api/memories', ...)\<close>: \<open>{memories, count: memories.length}\<close>.\<close>

definition api_memories :: "EchoChamber \<Rightarrow> response \<times> EchoChamber" where
  "api_memories chamber =
     (let (memories, chamber) = getMemories chamber
      in (\<lparr>status = 200, body = MemoriesBody memories (length memories)\<rparr>, chamber))"

text \<open>
  \<open>app.get('/api/test', ...)\<close>: \<open>{success: result.success, result, message}\<close>. Nothing
  in the \<open>try\<close> block raises here, so the \<open>catch\<close> branch (status 500) is not taken.
\<close>

definition api_test :: "string \<Rightarrow> EchoChamber \<Rightarrow> response \<times> EchoChamber" where
  "api_test now chamber =
     (let testChamber = new_EchoChamber;
          (result, testChamber) = predictNext (JArr [num 3, num 6, num 9, num 12]) now testChamber
      in (\<lparr>status = 200,
           body = TestBody (success result) result ''Server is working correctly''\<rparr>,
          chamber))"

section \<open>Facts about numbers\<close>

lemma round_double_0: "round_double 0 = Fin 0" by code_simp

lemma round_double_not_NaN: "round_double q \<noteq> NaN"
  by (simp add: round_double_def Let_def)

lemma js_add_finite_not_NaN:
  "isFinite (JNum x) \<Longrightarrow> y \<noteq> NaN \<Longrightarrow> js_add x y \<noteq> NaN"
  by (cases x; cases y) (simp_all add: round_double_not_NaN)

lemma js_sub_finite_not_NaN:
  "isFinite (JNum x) \<Longrightarrow> isFinite (JNum y) \<Longrightarrow> js_sub x y \<noteq> NaN"
  unfolding js_sub_def
  by (cases x; cases y) (simp_all add: round_double_not_NaN)

lemma strict_equal_refl: "x \<noteq> NaN \<Longrightarrow> strict_equal x x"
  by (simp add: strict_equal_def)

lemma js_add_strict_equal:
  assumes "isFinite (JNum x)" and "strict_equal c d"
  shows "strict_equal (js_add x c) (js_add x d)"
proof (cases "c = d")
  case True
  with assms show ?thesis
    by (simp add: strict_equal_def js_add_finite_not_NaN)
next
  case False
  with assms(2) have z: "is_zero c" "is_zero d"
    by (simp_all add: strict_equal_def)
  with assms(1) show ?thesis
    by (cases x; cases c; cases d)
       (simp_all add: round_double_0 strict_equal_def round_double_not_NaN)
qed

lemma strict_equal_common:
  "strict_equal x d \<Longrightarrow> strict_equal y d \<Longrightarrow> strict_equal x y"
  by (auto simp: strict_equal_def)

text \<open>The doubles nearest to \<open>0.1\<close>, \<open>0.2\<close> and \<open>0.3\<close>.\<close>

lemma tenths:
  "round_double (1 / 10) = Fin (3602879701896397 / 36028797018963968)"
  "round_double (2 / 10) = Fin (3602879701896397 / 18014398509481984)"
  "round_double (3 / 10) = Fin (5404319552844595 / 18014398509481984)"
  by code_simp+

section \<open>Validation\<close>

lemma is_valid_number_iff: "is_valid_number v \<longleftrightarrow> (\<exists>n. v = JNum n \<and> n \<noteq> NaN)"
  by (cases v) (simp_all add: is_valid_number_def)

lemma isFinite_iff: "isFinite v \<longleftrightarrow> (\<exists>n. v = JNum n \<and> (n = NegZero \<or> (\<exists>q. n = Fin q)))"
  by (cases v rule: isFinite.cases) simp_all

lemma isFinite_valid: "isFinite v \<Longrightarrow> is_valid_number v"
  by (auto simp: isFinite_iff is_valid_number_iff)

text \<open>The loop collects the differences of neighbours, in order.\<close>

lemma differences_loop_eq:
  "differences_loop xs i ds = ds @ map (\<lambda>k. js_minus (xs ! k) (xs ! (k - 1))) [i..<length xs]"
proof (induction xs i ds rule: differences_loop.induct)
  case (1 xs i ds)
  show ?case
  proof (cases "i < length xs")
    case True
    with "1" show ?thesis
      by (subst differences_loop.simps) (simp add: upt_conv_Cons)
  next
    case False
    then show ?thesis
      by (subst differences_loop.simps) simp
  qed
qed

text \<open>Behind the guard, the loop subtracts numbers from numbers.\<close>

lemma differences_loop_numbers:
  assumes "list_all is_valid_number xs" and "1 \<le> i" and "i < length xs"
  shows "\<exists>a b. xs ! i = JNum a \<and> xs ! (i - 1) = JNum b \<and>
           js_minus (xs ! i) (xs ! (i - 1)) = js_sub a b"
proof -
  from assms have "is_valid_number (xs ! i)" "is_valid_number (xs ! (i - 1))"
    by (simp_all add: list_all_length)
  then obtain a b where "xs ! i = JNum a" "xs ! (i - 1) = JNum b"
    by (auto simp: is_valid_number_iff)
  then show ?thesis
    by simp
qed

text \<open>\<open>validateSequence\<close> neither reads nor writes the instance.\<close>

lemma validateSequence_snd: "snd (validateSequence v this) = this"
  by (simp add: validateSequence_def Let_def split: jsval.splits)

lemma validateSequence_fst: "fst (validateSequence v this) = fst (validateSequence v this')"
  by (simp add: validateSequence_def Let_def split: jsval.splits)

lemma validateSequence_eq: "validateSequence v this = (fst (validateSequence v this), this)"
  by (metis prod.collapse validateSequence_snd)

text \<open>The four ways out of \<open>validateSequence\<close>.\<close>

lemma validateSequence_not_array:
  "\<forall>xs. v \<noteq> JArr xs \<Longrightarrow>
   fst (validateSequence v this) = \<lparr>isValid = False, difference = JNull, message = MsgNotArray\<rparr>"
  by (cases v) (auto simp: validateSequence_def)

lemma validateSequence_short:
  "length xs < 2 \<Longrightarrow>
   fst (validateSequence (JArr xs) this) = \<lparr>isValid = False, difference = JNull, message = MsgTooShort\<rparr>"
  by (simp add: validateSequence_def)

lemma validateSequence_not_numbers:
  "2 \<le> length xs \<Longrightarrow> \<not> list_all is_valid_number xs \<Longrightarrow>
   fst (validateSequence (JArr xs) this) = \<lparr>isValid = False, difference = JNull, message = MsgNotNumbers\<rparr>"
  by (simp add: validateSequence_def)

lemma validateSequence_numbers:
  assumes "2 \<le> length xs" and "list_all is_valid_number xs"
  shows "fst (validateSequence (JArr xs) this) =
     (if \<forall>i. 1 \<le> i \<and> i < length xs \<longrightarrow>
            strict_equal (js_minus (xs ! i) (xs ! (i - 1))) (js_minus (xs ! 1) (xs ! 0))
      then \<lparr>isValid = True, difference = JNum (js_minus (xs ! 1) (xs ! 0)), message = MsgValid\<rparr>
      else \<lparr>isValid = False, difference = JNull, message = MsgNotArithmetic\<rparr>)"
proof -
  let ?ds = "differences_loop xs 1 []"
  have ds: "differences_loop xs (Suc 0) [] =
      map (\<lambda>k. js_minus (xs ! k) (xs ! (k - 1))) [Suc 0..<length xs]"
    by (simp add: differences_loop_eq)
  have first: "?ds ! 0 = js_minus (xs ! 1) (xs ! 0)"
    using assms(1) by (simp add: ds)
  have every: "list_all (\<lambda>d. strict_equal d (js_minus (xs ! 1) (xs ! 0))) ?ds \<longleftrightarrow>
      (\<forall>i. 1 \<le> i \<and> i < length xs \<longrightarrow>
         strict_equal (js_minus (xs ! i) (xs ! (i - 1))) (js_minus (xs ! 1) (xs ! 0)))"
    by (auto simp: ds list_all_iff)
  from assms have "fst (validateSequence (JArr xs) this) =
      (if list_all (\<lambda>d. strict_equal d (?ds ! 0)) ?ds
       then \<lparr>isValid = True, difference = JNum (?ds ! 0), message = MsgValid\<rparr>
       else \<lparr>isValid = False, difference = JNull, message = MsgNotArithmetic\<rparr>)"
    by (simp add: validateSequence_def Let_def)
  then show ?thesis
    unfolding first every .
qed

text \<open>A valid result comes from an array of at least two valid numbers.\<close>

lemma validateSequence_valid:
  assumes "isValid (fst (validateSequence v this))"
  shows "\<exists>xs. v = JArr xs \<and> 2 \<le> length xs \<and> list_all is_valid_number xs \<and>
           fst (validateSequence v this) =
             \<lparr>isValid = True, difference = JNum (js_minus (xs ! 1) (xs ! 0)), message = MsgValid\<rparr>"
proof (cases v)
  case (JArr xs)
  have len: "2 \<le> length xs"
  proof (rule ccontr)
    assume "\<not> 2 \<le> length xs"
    then have "length xs < 2" by simp
    from validateSequence_short [OF this] assms JArr show False by simp
  qed
  have nums: "list_all is_valid_number xs"
  proof (rule ccontr)
    assume "\<not> list_all is_valid_number xs"
    from validateSequence_not_numbers [OF len this] assms JArr show False by simp
  qed
  from validateSequence_numbers [OF len nums, of this] assms JArr
  have "fst (validateSequence v this) =
      \<lparr>isValid = True, difference = JNum (js_minus (xs ! 1) (xs ! 0)), message = MsgValid\<rparr>"
    by (simp split: if_splits)
  with JArr len nums show ?thesis by blast
qed (use assms in \<open>simp_all add: validateSequence_def\<close>)

lemma all_upt_iff: "(\<forall>i. 1 \<le> i \<and> i < n \<longrightarrow> P i) \<longleftrightarrow> list_all P [1..<n]"
  by (auto simp: list_all_iff)

text \<open>
  The comparison is exact: on the doubles \<open>[0.1, 0.2, 0.3]\<close> the differences are
  \<open>0.1\<close> and \<open>0.09999999999999998\<close>, and the array is rejected.
\<close>

lemma validateSequence_tenths:
  "fst (validateSequence
     (JArr [num (3602879701896397 / 36028797018963968),
            num (3602879701896397 / 18014398509481984),
            num (5404319552844595 / 18014398509481984)]) new_EchoChamber) =
   \<lparr>isValid = False, difference = JNull, message = MsgNotArithmetic\<rparr>"
  by code_simp

subsection \<open>C3: rejected inputs\<close>

text \<open>
  C3 as the specification states it: \<open>validateSequence\<close> answers \<open>isValid = false\<close>,
  \<open>difference = null\<close> whenever the input is not an array, or is shorter than 2, or has
  an element that is not a finite number. The guard of the source is
  \<open>typeof num === 'number' && !isNaN(num)\<close>, which lets the infinities through: the
  array \<open>[0, Infinity]\<close> has an element that is not finite and is accepted, with
  difference \<open>Infinity\<close>.
\<close>

theorem validateSequence_rejects_not_finite_counterexample:
  "\<not> isFinite (JNum PosInf) \<and>
   fst (validateSequence (JArr [num 0, JNum PosInf]) new_EchoChamber) =
     \<lparr>isValid = True, difference = JNum PosInf, message = MsgValid\<rparr>"
  by code_simp

text \<open>
  C3, amended: \<open>validateSequence\<close> answers \<open>isValid = false\<close>, \<open>difference = null\<close>
  whenever the input is not an array, or is shorter than 2, or has an element that is not
  of type number or is NaN.
\<close>

theorem validateSequence_rejects:
  assumes "case seq of
             JArr elems \<Rightarrow>
               length elems < 2 \<or> (\<exists>x \<in> set elems. typeof x \<noteq> ''number'' \<or> x = JNum NaN)
           | _ \<Rightarrow> True"
  shows "isValid (fst (validateSequence seq this)) = False \<and>
         difference (fst (validateSequence seq this)) = JNull"
proof (cases "\<exists>elems. seq = JArr elems")
  case False
  then show ?thesis
    by (simp add: validateSequence_not_array)
next
  case True
  then obtain elems where seq: "seq = JArr elems" ..
  show ?thesis
  proof (cases "length elems < 2")
    case True
    then show ?thesis
      by (simp add: seq validateSequence_short)
  next
    case False
    with assms seq obtain x where x: "x \<in> set elems" "typeof x \<noteq> ''number'' \<or> x = JNum NaN"
      by auto
    from x(2) have "\<not> is_valid_number x"
      by (auto simp: is_valid_number_def)
    with x(1) have "\<not> list_all is_valid_number elems"
      by (auto simp: list_all_iff)
    with False show ?thesis
      by (simp add: seq validateSequence_not_numbers)
  qed
qed

theorem validateSequence_rejects_witness:
  "isValid (fst (validateSequence (JStr ''not an array'') new_EchoChamber)) = False \<and>
   difference (fst (validateSequence (JStr ''not an array'') new_EchoChamber)) = JNull \<and>
   isValid (fst (validateSequence (JArr [num 42]) new_EchoChamber)) = False \<and>
   difference (fst (validateSequence (JArr [num 42]) new_EchoChamber)) = JNull \<and>
   isValid (fst (validateSequence (JArr [num 1, JNum NaN, num 3]) new_EchoChamber)) = False \<and>
   difference (fst (validateSequence (JArr [num 1, JNum NaN, num 3]) new_EchoChamber)) = JNull \<and>
   isValid (fst (validateSequence (JArr [num 1, JStr ''hello'', num 3]) new_EchoChamber)) = False \<and>
   difference (fst (validateSequence (JArr [num 1, JStr ''hello'', num 3]) new_EchoChamber)) = JNull"
  using validateSequence_rejects [of "JStr ''not an array''" new_EchoChamber]
    validateSequence_rejects [of "JArr [num 42]" new_EchoChamber]
    validateSequence_rejects [of "JArr [num 1, JNum NaN, num 3]" new_EchoChamber]
    validateSequence_rejects [of "JArr [num 1, JStr ''hello'', num 3]" new_EchoChamber]
  by simp

subsection \<open>C4: arithmetic progressions\<close>

text \<open>
  C4: for an array of at least 2 finite numbers, \<open>validateSequence\<close> answers
  \<open>isValid = true\<close> with \<open>difference = seq[1] - seq[0]\<close> exactly when every difference
  \<open>seq[i] - seq[i-1]\<close> is \<open>===\<close> to the first one, with no tolerance, and
  \<open>isValid = false\<close> with \<open>difference = null\<close> otherwise; \<open>[1, 2, 4, 8]\<close> is rejected.
\<close>

theorem validateSequence_arithmetic:
  assumes "2 \<le> length xs" and "\<forall>x \<in> set xs. isFinite x"
  shows "fst (validateSequence (JArr xs) this) =
     (if \<forall>i. 1 \<le> i \<and> i < length xs \<longrightarrow>
            strict_equal (js_minus (xs ! i) (xs ! (i - 1))) (js_minus (xs ! 1) (xs ! 0))
      then \<lparr>isValid = True, difference = JNum (js_minus (xs ! 1) (xs ! 0)), message = MsgValid\<rparr>
      else \<lparr>isValid = False, difference = JNull, message = MsgNotArithmetic\<rparr>) \<and>
     isValid (fst (validateSequence (JArr [num 1, num 2, num 4, num 8]) this)) = False"
proof
  from assms(2) have "list_all is_valid_number xs"
    by (simp add: list_all_iff isFinite_valid)
  from validateSequence_numbers [OF assms(1) this]
  show "fst (validateSequence (JArr xs) this) =
     (if \<forall>i. 1 \<le> i \<and> i < length xs \<longrightarrow>
            strict_equal (js_minus (xs ! i) (xs ! (i - 1))) (js_minus (xs ! 1) (xs ! 0))
      then \<lparr>isValid = True, difference = JNum (js_minus (xs ! 1) (xs ! 0)), message = MsgValid\<rparr>
      else \<lparr>isValid = False, difference = JNull, message = MsgNotArithmetic\<rparr>)" .
  have "isValid (fst (validateSequence (JArr [num 1, num 2, num 4, num 8]) new_EchoChamber)) = False"
    by code_simp
  then show "isValid (fst (validateSequence (JArr [num 1, num 2, num 4, num 8]) this)) = False"
    using validateSequence_fst [of _ this new_EchoChamber] by simp
qed

theorem validateSequence_arithmetic_witness:
  "2 \<le> length [num 2, num 4, num 6, num 8] \<and>
   list_all isFinite [num 2, num 4, num 6, num 8] \<and>
   fst (validateSequence (JArr [num 2, num 4, num 6, num 8]) new_EchoChamber) =
     \<lparr>isValid = True, difference = num 2, message = MsgValid\<rparr>"
proof -
  let ?xs = "[num 2, num 4, num 6, num 8]"
  have len: "2 \<le> length ?xs" by simp
  have fin: "\<forall>x \<in> set ?xs. isFinite x" by simp
  have all: "\<forall>i. 1 \<le> i \<and> i < length ?xs \<longrightarrow>
            strict_equal (js_minus (?xs ! i) (?xs ! (i - 1))) (js_minus (?xs ! 1) (?xs ! 0))"
    unfolding all_upt_iff by code_simp
  have first: "js_minus (?xs ! 1) (?xs ! 0) = Fin 2"
    by code_simp
  from validateSequence_arithmetic [OF len fin, of new_EchoChamber]
  have "fst (validateSequence (JArr ?xs) new_EchoChamber) =
     \<lparr>isValid = True, difference = JNum (js_minus (?xs ! 1) (?xs ! 0)), message = MsgValid\<rparr>"
    by (simp only: if_P [OF all])
  then have "fst (validateSequence (JArr ?xs) new_EchoChamber) =
     \<lparr>isValid = True, difference = num 2, message = MsgValid\<rparr>"
    unfolding first .
  with len fin show ?thesis
    unfolding list_all_iff by blast
qed

subsection \<open>C6: validation is pure\<close>

text \<open>
  C6: \<open>validateSequence\<close> returns the same result for the same input whatever the
  instance state, two calls in a row return identical results, and no call changes the
  instance (neither \<open>echoMemories\<close> nor \<open>predictionCount\<close>).
\<close>

theorem validateSequence_pure:
  "fst (validateSequence seq this) = fst (validateSequence seq this') \<and>
   snd (validateSequence seq this) = this \<and>
   (let (r1, this1) = validateSequence seq this; (r2, this2) = validateSequence seq this1
    in r1 = r2 \<and> this2 = this)"
proof -
  have "validateSequence seq this = (fst (validateSequence seq this), this)"
    by (metis prod.collapse validateSequence_snd)
  then show ?thesis
    using validateSequence_fst [of seq this this'] validateSequence_snd [of seq this]
    by (simp add: case_prod_beta)
qed

section \<open>Prediction\<close>

lemma predictNext_invalid:
  assumes "\<not> isValid (fst (validateSequence v this))"
  shows "predictNext v now this =
    (\<lparr>success = False, nextNumber = JNull, commonDifference = JUndefined,
      message = validation.message (fst (validateSequence v this))\<rparr>, this)"
  using assms
  by (simp add: predictNext_def case_prod_beta validateSequence_snd)

lemma predictNext_valid:
  assumes "isValid (fst (validateSequence v this))"
  shows "predictNext v now this =
    (\<lparr>success = True,
      nextNumber = js_plus (elements v ! (length (elements v) - 1))
                     (difference (fst (validateSequence v this))),
      commonDifference = difference (fst (validateSequence v this)),
      message = MsgNextNumber (js_plus (elements v ! (length (elements v) - 1))
                     (difference (fst (validateSequence v this))))\<rparr>,
     this\<lparr>echoMemories := echoMemories this @
        [\<lparr>sequence = elements v,
          nextNumber = js_plus (elements v ! (length (elements v) - 1))
                     (difference (fst (validateSequence v this))),
          commonDifference = difference (fst (validateSequence v this)),
          timestamp = now,
          predictionIndex = predictionCount this + 1\<rparr>],
       predictionCount := predictionCount this + 1\<rparr>)"
  using assms
  by (simp add: predictNext_def case_prod_beta validateSequence_snd Let_def)

text \<open>
  After a valid result \<open>predictNext\<close> reads the last element of an array and adds two
  numbers: \<open>elements\<close> and \<open>js_plus\<close> are applied where they are specified.
\<close>

lemma predictNext_valid_numbers:
  assumes "isValid (fst (validateSequence v this))"
  shows "\<exists>xs l c. v = JArr xs \<and> xs ! (length xs - 1) = JNum l \<and>
           difference (fst (validateSequence v this)) = JNum c \<and>
           fst (predictNext v now this) =
             \<lparr>success = True, nextNumber = JNum (js_add l c), commonDifference = JNum c,
              message = MsgNextNumber (JNum (js_add l c))\<rparr>"
proof -
  from validateSequence_valid [OF assms] obtain xs where
    xs: "v = JArr xs" "2 \<le> length xs" "list_all is_valid_number xs"
    and d: "difference (fst (validateSequence v this)) = JNum (js_minus (xs ! 1) (xs ! 0))"
    by auto
  from xs(2,3) have "is_valid_number (xs ! (length xs - 1))"
    by (simp add: list_all_length)
  then obtain l where l: "xs ! (length xs - 1) = JNum l"
    by (auto simp: is_valid_number_iff)
  from predictNext_valid [OF assms, of now] xs(1) l d
  have "fst (predictNext v now this) =
      \<lparr>success = True, nextNumber = JNum (js_add l (js_minus (xs ! 1) (xs ! 0))),
       commonDifference = JNum (js_minus (xs ! 1) (xs ! 0)),
       message = MsgNextNumber (JNum (js_add l (js_minus (xs ! 1) (xs ! 0))))\<rparr>"
    by simp
  with xs(1) l d show ?thesis
    by blast
qed

lemma predictNext_success:
  "success (fst (predictNext v now this)) = isValid (fst (validateSequence v this))"
  by (cases "isValid (fst (validateSequence v this))")
     (simp_all add: predictNext_valid predictNext_invalid)

lemma predictNext_fst:
  "fst (predictNext v now this) = fst (predictNext v now' this')"
proof (cases "isValid (fst (validateSequence v this))")
  case True
  moreover from True have "isValid (fst (validateSequence v this'))"
    using validateSequence_fst [of v this this'] by simp
  ultimately show ?thesis
    using validateSequence_fst [of v this this']
    by (simp add: predictNext_valid)
next
  case False
  moreover from False have "\<not> isValid (fst (validateSequence v this'))"
    using validateSequence_fst [of v this this'] by simp
  ultimately show ?thesis
    using validateSequence_fst [of v this this']
    by (simp add: predictNext_invalid)
qed

lemma predictNext_examples:
  "fst (predictNext (JArr [num 3, num 6, num 9, num 12]) [] new_EchoChamber) =
     \<lparr>success = True, nextNumber = num 15, commonDifference = num 3,
      message = MsgNextNumber (num 15)\<rparr>"
  "fst (predictNext (JArr [num 10, num 7, num 4, num 1]) [] new_EchoChamber) =
     \<lparr>success = True, nextNumber = num (- 2), commonDifference = num (- 3),
      message = MsgNextNumber (num (- 2))\<rparr>"
  "fst (predictNext (JArr [num 7, num 7, num 7, num 7]) [] new_EchoChamber) =
     \<lparr>success = True, nextNumber = num 7, commonDifference = num 0,
      message = MsgNextNumber (num 7)\<rparr>"
  "fst (predictNext (JArr [num 5, num 10]) [] new_EchoChamber) =
     \<lparr>success = True, nextNumber = num 15, commonDifference = num 5,
      message = MsgNextNumber (num 15)\<rparr>"
  by code_simp+

subsection \<open>C1: the next number of an arithmetic progression\<close>

text \<open>
  C1: for an array of at least 2 finite numbers whose consecutive differences all equal
  (\<open>===\<close>) a constant \<open>d\<close>, \<open>predictNext\<close> returns \<open>success = true\<close>, a
  \<open>commonDifference\<close> equal to \<open>d\<close> (it is the first difference) and a \<open>nextNumber\<close>
  equal to the last element plus \<open>d\<close> (it is the last element plus the first
  difference). In particular \<open>[3,6,9,12]\<close> gives 15, \<open>[10,7,4,1]\<close> gives -2,
  \<open>[7,7,7,7]\<close> gives 7 and \<open>[5,10]\<close> gives 15.
\<close>

theorem predictNext_arithmetic:
  assumes "2 \<le> length xs"
    and "\<forall>x \<in> set xs. isFinite x"
    and "\<forall>i. 1 \<le> i \<and> i < length xs \<longrightarrow> strict_equal (js_minus (xs ! i) (xs ! (i - 1))) d"
  shows "(\<exists>l c n. xs ! (length xs - 1) = JNum l \<and>
            fst (predictNext (JArr xs) now this) =
              \<lparr>success = True, nextNumber = JNum n, commonDifference = JNum c,
               message = MsgNextNumber (JNum n)\<rparr> \<and>
            strict_equal c d \<and> strict_equal n (js_add l d) \<and>
            c = js_minus (xs ! 1) (xs ! 0) \<and> n = js_add l c) \<and>
         prediction.nextNumber (fst (predictNext (JArr [num 3, num 6, num 9, num 12]) now this)) = num 15 \<and>
         prediction.nextNumber (fst (predictNext (JArr [num 10, num 7, num 4, num 1]) now this)) = num (- 2) \<and>
         prediction.nextNumber (fst (predictNext (JArr [num 7, num 7, num 7, num 7]) now this)) = num 7 \<and>
         prediction.nextNumber (fst (predictNext (JArr [num 5, num 10]) now this)) = num 15"
proof -
  let ?c = "js_minus (xs ! 1) (xs ! 0)"
  from assms(2) have nums: "list_all is_valid_number xs"
    by (simp add: list_all_iff isFinite_valid)
  from assms(1) have "xs ! (length xs - 1) \<in> set xs"
    by simp
  with assms(2) have "isFinite (xs ! (length xs - 1))"
    by blast
  then obtain l where l: "xs ! (length xs - 1) = JNum l" "isFinite (JNum l)"
    by (auto simp: isFinite_iff)
  from assms(1) have "1 \<le> (1::nat) \<and> 1 < length xs"
    by simp
  with assms(3) have "strict_equal (js_minus (xs ! 1) (xs ! (1 - 1))) d"
    by blast
  then have c: "strict_equal ?c d"
    by simp
  with assms(3) have "\<forall>i. 1 \<le> i \<and> i < length xs \<longrightarrow>
      strict_equal (js_minus (xs ! i) (xs ! (i - 1))) ?c"
    by (blast intro: strict_equal_common)
  with validateSequence_numbers [OF assms(1) nums, of this]
  have v: "fst (validateSequence (JArr xs) this) =
      \<lparr>isValid = True, difference = JNum ?c, message = MsgValid\<rparr>"
    by simp
  then have "isValid (fst (validateSequence (JArr xs) this))"
    by simp
  from predictNext_valid [OF this, of now]
  have "fst (predictNext (JArr xs) now this) =
      \<lparr>success = True, nextNumber = JNum (js_add l ?c), commonDifference = JNum ?c,
       message = MsgNextNumber (JNum (js_add l ?c))\<rparr>"
    using l(1) by (simp add: v)
  moreover from l(2) c have "strict_equal (js_add l ?c) (js_add l d)"
    by (rule js_add_strict_equal)
  ultimately have general: "\<exists>l c n. xs ! (length xs - 1) = JNum l \<and>
            fst (predictNext (JArr xs) now this) =
              \<lparr>success = True, nextNumber = JNum n, commonDifference = JNum c,
               message = MsgNextNumber (JNum n)\<rparr> \<and>
            strict_equal c d \<and> strict_equal n (js_add l d) \<and>
            c = js_minus (xs ! 1) (xs ! 0) \<and> n = js_add l c"
    using l(1) c by blast
  show ?thesis
    using general predictNext_examples predictNext_fst [of _ now this "[]" new_EchoChamber]
    by simp
qed

theorem predictNext_arithmetic_witness:
  "2 \<le> length [num (1 / 2), num (3 / 2), num (5 / 2), num (7 / 2)] \<and>
   list_all isFinite [num (1 / 2), num (3 / 2), num (5 / 2), num (7 / 2)] \<and>
   list_all
     (\<lambda>i. strict_equal
        (js_minus ([num (1 / 2), num (3 / 2), num (5 / 2), num (7 / 2)] ! i)
           ([num (1 / 2), num (3 / 2), num (5 / 2), num (7 / 2)] ! (i - 1)))
        (Fin 1))
     [1..<length [num (1 / 2), num (3 / 2), num (5 / 2), num (7 / 2)]] \<and>
   fst (predictNext (JArr [num (1 / 2), num (3 / 2), num (5 / 2), num (7 / 2)]) ''12:00:00 PM''
          new_EchoChamber) =
     \<lparr>success = True, nextNumber = num (9 / 2), commonDifference = num 1,
      message = MsgNextNumber (num (9 / 2))\<rparr>"
proof -
  let ?xs = "[num (1 / 2), num (3 / 2), num (5 / 2), num (7 / 2)]"
  have len: "2 \<le> length ?xs" by simp
  have fin: "\<forall>x \<in> set ?xs. isFinite x" by simp
  have const: "\<forall>i. 1 \<le> i \<and> i < length ?xs \<longrightarrow>
      strict_equal (js_minus (?xs ! i) (?xs ! (i - 1))) (Fin 1)"
    unfolding all_upt_iff by code_simp
  have last: "?xs ! (length ?xs - 1) = num (7 / 2)"
    by simp
  have first: "js_minus (?xs ! 1) (?xs ! 0) = Fin 1"
    by code_simp
  have sum: "js_add (Fin (7 / 2)) (Fin 1) = Fin (9 / 2)"
    by code_simp
  from predictNext_arithmetic [OF len fin const, of "''12:00:00 PM''" new_EchoChamber]
  obtain l c n where
    "?xs ! (length ?xs - 1) = JNum l"
    and res: "fst (predictNext (JArr ?xs) ''12:00:00 PM'' new_EchoChamber) =
       \<lparr>success = True, nextNumber = JNum n, commonDifference = JNum c,
        message = MsgNextNumber (JNum n)\<rparr>"
    and "c = js_minus (?xs ! 1) (?xs ! 0)" and "n = js_add l c"
    by blast
  then have "l = Fin (7 / 2)" "c = Fin 1" "n = Fin (9 / 2)"
    unfolding last first using sum by simp_all
  with res have "fst (predictNext (JArr ?xs) ''12:00:00 PM'' new_EchoChamber) =
     \<lparr>success = True, nextNumber = num (9 / 2), commonDifference = num 1,
      message = MsgNextNumber (num (9 / 2))\<rparr>"
    by simp
  with len fin const show ?thesis
    unfolding all_upt_iff list_all_iff by blast
qed

subsection \<open>C5: a rejected input leaves the instance alone\<close>

text \<open>
  C5: whenever \<open>validateSequence\<close> fails on the input, \<open>predictNext\<close> returns
  \<open>success = false\<close>, \<open>nextNumber = null\<close> and the message of the validation, and the
  instance is unchanged: no entry is appended to \<open>echoMemories\<close> and \<open>predictionCount\<close>
  keeps its value.
\<close>

theorem predictNext_rejects:
  "\<not> isValid (fst (validateSequence seq this)) \<longrightarrow>
     fst (predictNext seq now this) =
       \<lparr>success = False, nextNumber = JNull, commonDifference = JUndefined,
        message = validation.message (fst (validateSequence seq this))\<rparr> \<and>
     snd (predictNext seq now this) = this \<and>
     echoMemories (snd (predictNext seq now this)) = echoMemories this \<and>
     predictionCount (snd (predictNext seq now this)) = predictionCount this"
  by (simp add: predictNext_invalid)

theorem predictNext_rejects_witness:
  "isValid (fst (validateSequence (JArr [num 1, num 2, num 4, num 8]) new_EchoChamber)) = False \<and>
   predictNext (JArr [num 1, num 2, num 4, num 8]) ''12:00:00 PM'' new_EchoChamber =
     (\<lparr>success = False, nextNumber = JNull, commonDifference = JUndefined,
       message = MsgNotArithmetic\<rparr>, new_EchoChamber) \<and>
   isValid (fst (validateSequence (JStr ''not an array'') new_EchoChamber)) = False \<and>
   predictNext (JStr ''not an array'') ''12:00:00 PM'' new_EchoChamber =
     (\<lparr>success = False, nextNumber = JNull, commonDifference = JUndefined,
       message = MsgNotArray\<rparr>, new_EchoChamber)"
proof -
  have v1: "fst (validateSequence (JArr [num 1, num 2, num 4, num 8]) new_EchoChamber) =
      \<lparr>isValid = False, difference = JNull, message = MsgNotArithmetic\<rparr>"
    by code_simp
  have v2: "fst (validateSequence (JStr ''not an array'') new_EchoChamber) =
      \<lparr>isValid = False, difference = JNull, message = MsgNotArray\<rparr>"
    by (simp add: validateSequence_def)
  show ?thesis
    using predictNext_rejects [of "JArr [num 1, num 2, num 4, num 8]" new_EchoChamber "''12:00:00 PM''"]
      predictNext_rejects [of "JStr ''not an array''" new_EchoChamber "''12:00:00 PM''"]
    by (simp add: v1 v2 prod_eq_iff)
qed

section \<open>The history\<close>

text \<open>What \<open>predictNext\<close> does to the instance, in terms of the result it returns.\<close>

lemma predictNext_snd:
  "snd (predictNext v now this) =
     (if success (fst (predictNext v now this))
      then this\<lparr>echoMemories := echoMemories this @
             [\<lparr>sequence = elements v,
               nextNumber = prediction.nextNumber (fst (predictNext v now this)),
               commonDifference = prediction.commonDifference (fst (predictNext v now this)),
               timestamp = now,
               predictionIndex = predictionCount this + 1\<rparr>],
           predictionCount := predictionCount this + 1\<rparr>
      else this)"
  by (cases "isValid (fst (validateSequence v this))")
     (simp_all add: predictNext_valid predictNext_invalid)

subsection \<open>C7: reading the history\<close>

text \<open>
  C7: \<open>getMemories\<close> returns all stored entries, oldest first (a successful prediction
  adds its entry after the entries already there, a failed one adds nothing), does not
  change the instance, and returns the empty list on an instance that has made no
  prediction.
\<close>

theorem getMemories_lists:
  "fst (getMemories this) = echoMemories this \<and>
   snd (getMemories this) = this \<and>
   fst (getMemories new_EchoChamber) = [] \<and>
   fst (getMemories (snd (predictNext seq now this))) =
     (if success (fst (predictNext seq now this))
      then fst (getMemories this) @
             [\<lparr>sequence = elements seq,
               nextNumber = prediction.nextNumber (fst (predictNext seq now this)),
               commonDifference = prediction.commonDifference (fst (predictNext seq now this)),
               timestamp = now,
               predictionIndex = predictionCount this + 1\<rparr>]
      else fst (getMemories this))"
  by (simp add: getMemories_def new_EchoChamber_def predictNext_snd)

subsection \<open>C9: the counter is the length of the history\<close>

text \<open>
  The indices stored in the history are \<open>1, 2, ..., predictionCount\<close>, in this order;
  every method keeps it so.
\<close>

lemma exec_indices:
  assumes "map predictionIndex (echoMemories this) = map Suc [0..<predictionCount this]"
  shows "map predictionIndex (echoMemories (exec c this)) =
           map Suc [0..<predictionCount (exec c this)]"
proof (cases c)
  case (PredictNext v now)
  with assms show ?thesis
    by (simp add: predictNext_snd)
qed (use assms in \<open>simp_all add: validateSequence_snd getMemories_def clearMemories_def\<close>)

lemma run_snoc: "run (calls @ [c]) this = exec c (run calls this)"
  by (simp add: run_def)

lemma run_Cons: "run (c # calls) this = run calls (exec c this)"
  by (simp add: run_def)

lemma run_indices:
  assumes "map predictionIndex (echoMemories this) = map Suc [0..<predictionCount this]"
  shows "map predictionIndex (echoMemories (run calls this)) =
           map Suc [0..<predictionCount (run calls this)]"
proof (induction calls rule: rev_induct)
  case Nil
  with assms show ?case by (simp add: run_def)
next
  case (snoc c calls)
  then show ?case
    by (simp only: run_snoc exec_indices)
qed

lemma new_indices:
  "map predictionIndex (echoMemories new_EchoChamber) = map Suc [0..<predictionCount new_EchoChamber]"
  by (simp add: new_EchoChamber_def)

lemma clear_indices:
  "map predictionIndex (echoMemories (snd (clearMemories this))) =
     map Suc [0..<predictionCount (snd (clearMemories this))]"
  by (simp add: clearMemories_def)

lemma indices_length:
  "map predictionIndex (echoMemories this) = map Suc [0..<predictionCount this] \<Longrightarrow>
   predictionCount this = length (echoMemories this)"
  by (drule arg_cong [where f = length]) simp

text \<open>
  C9: after any sequence of method calls on a new instance, \<open>predictionCount\<close> equals the
  length of \<open>echoMemories\<close>, and the entry a successful \<open>predictNext\<close> appends carries as
  \<open>predictionIndex\<close> the length of the history it results in.
\<close>

theorem predictionCount_is_length:
  "predictionCount (run calls new_EchoChamber) = length (echoMemories (run calls new_EchoChamber)) \<and>
   (success (fst (predictNext seq now (run calls new_EchoChamber))) \<longrightarrow>
      predictionIndex (last (echoMemories (snd (predictNext seq now (run calls new_EchoChamber))))) =
        length (echoMemories (snd (predictNext seq now (run calls new_EchoChamber)))))"
proof -
  let ?s = "run calls new_EchoChamber"
  have "map predictionIndex (echoMemories ?s) = map Suc [0..<predictionCount ?s]"
    by (rule run_indices [OF new_indices])
  then have "predictionCount ?s = length (echoMemories ?s)"
    by (rule indices_length)
  then show ?thesis
    by (simp add: predictNext_snd)
qed

theorem predictionCount_is_length_witness:
  "success (fst (predictNext (JArr [num 7, num 7, num 7, num 7]) ''12:00:03 PM''
      (run [PredictNext (JArr [num 3, num 6, num 9, num 12]) ''12:00:00 PM'',
            ValidateSequence (JArr [num 1, num 2, num 3]),
            ClearMemories,
            PredictNext (JArr [num 1, num 2, num 4, num 8]) ''12:00:01 PM'',
            GetMemories,
            PredictNext (JArr [num 5, num 10]) ''12:00:02 PM''] new_EchoChamber))) \<and>
   predictionCount
     (run [PredictNext (JArr [num 3, num 6, num 9, num 12]) ''12:00:00 PM'',
           ValidateSequence (JArr [num 1, num 2, num 3]),
           ClearMemories,
           PredictNext (JArr [num 1, num 2, num 4, num 8]) ''12:00:01 PM'',
           GetMemories,
           PredictNext (JArr [num 5, num 10]) ''12:00:02 PM''] new_EchoChamber) =
   length (echoMemories
     (run [PredictNext (JArr [num 3, num 6, num 9, num 12]) ''12:00:00 PM'',
           ValidateSequence (JArr [num 1, num 2, num 3]),
           ClearMemories,
           PredictNext (JArr [num 1, num 2, num 4, num 8]) ''12:00:01 PM'',
           GetMemories,
           PredictNext (JArr [num 5, num 10]) ''12:00:02 PM''] new_EchoChamber)) \<and>
   predictionIndex (last (echoMemories (snd
     (predictNext (JArr [num 7, num 7, num 7, num 7]) ''12:00:03 PM''
      (run [PredictNext (JArr [num 3, num 6, num 9, num 12]) ''12:00:00 PM'',
            ValidateSequence (JArr [num 1, num 2, num 3]),
            ClearMemories,
            PredictNext (JArr [num 1, num 2, num 4, num 8]) ''12:00:01 PM'',
            GetMemories,
            PredictNext (JArr [num 5, num 10]) ''12:00:02 PM''] new_EchoChamber))))) =
   length (echoMemories (snd
     (predictNext (JArr [num 7, num 7, num 7, num 7]) ''12:00:03 PM''
      (run [PredictNext (JArr [num 3, num 6, num 9, num 12]) ''12:00:00 PM'',
            ValidateSequence (JArr [num 1, num 2, num 3]),
            ClearMemories,
            PredictNext (JArr [num 1, num 2, num 4, num 8]) ''12:00:01 PM'',
            GetMemories,
            PredictNext (JArr [num 5, num 10]) ''12:00:02 PM''] new_EchoChamber)))) \<and>
   predictionCount
     (run [PredictNext (JArr [num 3, num 6, num 9, num 12]) ''12:00:00 PM'',
           ValidateSequence (JArr [num 1, num 2, num 3]),
           ClearMemories,
           PredictNext (JArr [num 1, num 2, num 4, num 8]) ''12:00:01 PM'',
           GetMemories,
           PredictNext (JArr [num 5, num 10]) ''12:00:02 PM''] new_EchoChamber) = 1"
proof -
  let ?calls = "[PredictNext (JArr [num 3, num 6, num 9, num 12]) ''12:00:00 PM'',
           ValidateSequence (JArr [num 1, num 2, num 3]),
           ClearMemories,
           PredictNext (JArr [num 1, num 2, num 4, num 8]) ''12:00:01 PM'',
           GetMemories,
           PredictNext (JArr [num 5, num 10]) ''12:00:02 PM'']"
  let ?seq = "JArr [num 7, num 7, num 7, num 7]"
  have ok: "success (fst (predictNext ?seq ''12:00:03 PM'' (run ?calls new_EchoChamber)))"
    by code_simp
  have count: "predictionCount (run ?calls new_EchoChamber) = 1"
    by code_simp
  from predictionCount_is_length [of ?calls ?seq "''12:00:03 PM''"] ok count
  show ?thesis
    by blast
qed

subsection \<open>C2: the indices of the history\<close>

text \<open>Without a clear, the counter grows by the number of successful predictions.\<close>

lemma successes_count:
  assumes "ClearMemories \<notin> set calls"
  shows "predictionCount (run calls this) = predictionCount this + successes calls this"
  using assms
proof (induction calls arbitrary: this)
  case Nil
  then show ?case by (simp add: run_def)
next
  case (Cons c calls)
  then have IH: "\<And>s. predictionCount (run calls s) = predictionCount s + successes calls s"
    by simp
  show ?case
  proof (cases c)
    case (PredictNext v now)
    then show ?thesis
      by (simp add: run_Cons IH case_prod_beta predictNext_snd)
  next
    case ClearMemories
    with Cons.prems show ?thesis by simp
  qed (simp_all add: run_Cons IH validateSequence_snd getMemories_def)
qed

lemma run_indices_successes:
  assumes "ClearMemories \<notin> set calls"
    and "predictionCount this = 0"
    and "map predictionIndex (echoMemories this) = map Suc [0..<predictionCount this]"
  shows "map predictionIndex (echoMemories (run calls this)) = [1..<Suc (successes calls this)]"
proof -
  have "map predictionIndex (echoMemories (run calls this)) = map Suc [0..<successes calls this]"
    using run_indices [OF assms(3), of calls] successes_count [OF assms(1), of this] assms(2)
    by simp
  then show ?thesis
    by (simp only: map_Suc_upt One_nat_def)
qed

text \<open>
  C2: after calls on a new instance of which \<open>N\<close> are successful \<open>predictNext\<close> calls and
  none is \<open>clearMemories\<close>, \<open>getMemories\<close> returns a list of length \<open>N\<close> whose entries
  carry the indices \<open>1, ..., N\<close> in this order. After \<open>clearMemories\<close> the list is empty,
  the next successful \<open>predictNext\<close> produces an entry with index 1, and the indices count
  from 1 again as before.
\<close>

theorem history_indices:
  "(ClearMemories \<notin> set calls \<longrightarrow>
      length (fst (getMemories (run calls new_EchoChamber))) = successes calls new_EchoChamber \<and>
      map predictionIndex (fst (getMemories (run calls new_EchoChamber))) =
        [1..<Suc (successes calls new_EchoChamber)]) \<and>
   fst (getMemories (snd (clearMemories this))) = [] \<and>
   (success (fst (predictNext seq now (snd (clearMemories this)))) \<longrightarrow>
      map predictionIndex (fst (getMemories (snd (predictNext seq now (snd (clearMemories this)))))) = [1]) \<and>
   (ClearMemories \<notin> set calls \<longrightarrow>
      map predictionIndex (fst (getMemories (run calls (snd (clearMemories this))))) =
        [1..<Suc (successes calls (snd (clearMemories this)))])"
proof -
  let ?c = "snd (clearMemories this)"
  have c0: "predictionCount ?c = 0"
    by (simp add: clearMemories_def)
  have n0: "predictionCount new_EchoChamber = 0"
    by (simp add: new_EchoChamber_def)
  have a_new: "map predictionIndex (echoMemories (run calls new_EchoChamber)) =
      [1..<Suc (successes calls new_EchoChamber)]" if "ClearMemories \<notin> set calls"
    using that n0 new_indices by (rule run_indices_successes)
  have a_len: "length (echoMemories (run calls new_EchoChamber)) = successes calls new_EchoChamber"
    if "ClearMemories \<notin> set calls"
    using a_new [OF that, THEN arg_cong, of length] by simp
  have a_clear: "map predictionIndex (echoMemories (run calls ?c)) = [1..<Suc (successes calls ?c)]"
    if "ClearMemories \<notin> set calls"
    using that c0 clear_indices by (rule run_indices_successes)
  have b: "fst (getMemories ?c) = []"
    by (simp add: getMemories_def clearMemories_def)
  have d: "map predictionIndex (echoMemories (snd (predictNext seq now ?c))) = [1]"
    if "success (fst (predictNext seq now ?c))"
    using that by (simp add: predictNext_snd clearMemories_def)
  show ?thesis
    using a_new a_len a_clear b d by (simp add: getMemories_def del: upt_Suc)
qed

theorem history_indices_witness:
  "ClearMemories \<notin> set
     [PredictNext (JArr [num 3, num 6, num 9, num 12]) ''12:00:00 PM'',
      PredictNext (JArr [num 1, num 2, num 4, num 8]) ''12:00:01 PM'',
      ValidateSequence (JArr [num 1, num 2, num 3]),
      GetMemories,
      PredictNext (JArr [num 5, num 10]) ''12:00:02 PM''] \<and>
   successes
     [PredictNext (JArr [num 3, num 6, num 9, num 12]) ''12:00:00 PM'',
      PredictNext (JArr [num 1, num 2, num 4, num 8]) ''12:00:01 PM'',
      ValidateSequence (JArr [num 1, num 2, num 3]),
      GetMemories,
      PredictNext (JArr [num 5, num 10]) ''12:00:02 PM''] new_EchoChamber = 2 \<and>
   length (fst (getMemories (run
     [PredictNext (JArr [num 3, num 6, num 9, num 12]) ''12:00:00 PM'',
      PredictNext (JArr [num 1, num 2, num 4, num 8]) ''12:00:01 PM'',
      ValidateSequence (JArr [num 1, num 2, num 3]),
      GetMemories,
      PredictNext (JArr [num 5, num 10]) ''12:00:02 PM''] new_EchoChamber))) = 2 \<and>
   map predictionIndex (fst (getMemories (run
     [PredictNext (JArr [num 3, num 6, num 9, num 12]) ''12:00:00 PM'',
      PredictNext (JArr [num 1, num 2, num 4, num 8]) ''12:00:01 PM'',
      ValidateSequence (JArr [num 1, num 2, num 3]),
      GetMemories,
      PredictNext (JArr [num 5, num 10]) ''12:00:02 PM''] new_EchoChamber))) = [1, 2] \<and>
   success (fst (predictNext (JArr [num 7, num 7, num 7, num 7]) ''12:00:03 PM''
     (snd (clearMemories new_EchoChamber)))) \<and>
   map predictionIndex (fst (getMemories (snd
     (predictNext (JArr [num 7, num 7, num 7, num 7]) ''12:00:03 PM''
       (snd (clearMemories new_EchoChamber)))))) = [1]"
proof -
  let ?calls = "[PredictNext (JArr [num 3, num 6, num 9, num 12]) ''12:00:00 PM'',
      PredictNext (JArr [num 1, num 2, num 4, num 8]) ''12:00:01 PM'',
      ValidateSequence (JArr [num 1, num 2, num 3]),
      GetMemories,
      PredictNext (JArr [num 5, num 10]) ''12:00:02 PM'']"
  let ?seq = "JArr [num 7, num 7, num 7, num 7]"
  have no_clear: "ClearMemories \<notin> set ?calls"
    by simp
  have n: "successes ?calls new_EchoChamber = 2"
    by code_simp
  have ok: "success (fst (predictNext ?seq ''12:00:03 PM'' (snd (clearMemories new_EchoChamber))))"
    by code_simp
  have upt: "[1..<Suc 2] = [1, 2::nat]"
    by code_simp
  from history_indices [of ?calls new_EchoChamber ?seq "''12:00:03 PM''"] no_clear ok
  have "length (fst (getMemories (run ?calls new_EchoChamber))) = successes ?calls new_EchoChamber"
    and "map predictionIndex (fst (getMemories (run ?calls new_EchoChamber))) =
        [1..<Suc (successes ?calls new_EchoChamber)]"
    and "map predictionIndex (fst (getMemories (snd
       (predictNext ?seq ''12:00:03 PM'' (snd (clearMemories new_EchoChamber)))))) = [1]"
    by blast+
  then show ?thesis
    unfolding n upt using no_clear n ok by blast
qed

section \<open>The web server's self-test\<close>

lemma api_test_snd: "snd (api_test now chamber) = chamber"
  by (simp add: api_test_def case_prod_beta Let_def)

subsection \<open>C8: the response of GET /api/test\<close>

text \<open>
  C8: \<open>GET /api/test\<close> predicts on \<open>[3, 6, 9, 12]\<close> and answers with \<open>success = true\<close>,
  the prediction as \<open>result\<close> (\<open>nextNumber\<close> 15, \<open>commonDifference\<close> 3) and a message
  string.
\<close>

theorem api_test_response:
  "fst (api_test now chamber) =
     \<lparr>status = 200,
      body = TestBody True
        \<lparr>success = True, nextNumber = num 15, commonDifference = num 3,
         message = MsgNextNumber (num 15)\<rparr>
        ''Server is working correctly''\<rparr>"
  using predictNext_examples(1) predictNext_fst [of "JArr [num 3, num 6, num 9, num 12]" now new_EchoChamber "[]" new_EchoChamber]
  by (simp add: api_test_def case_prod_beta Let_def)

subsection \<open>C10: the self-test leaves the shared chamber alone\<close>

text \<open>
  C10: \<open>GET /api/test\<close> works on a chamber of its own, so the shared chamber is unchanged
  by it, and the answer of \<open>GET /api/memories\<close> is the same before and after any number
  of \<open>GET /api/test\<close> requests (one for each time in \<open>nows\<close>).
\<close>

theorem api_test_keeps_memories:
  "snd (api_test now chamber) = chamber \<and>
   fst (api_memories (fold (\<lambda>now chamber. snd (api_test now chamber)) nows chamber)) =
     fst (api_memories chamber)"
proof -
  have "fold (\<lambda>now chamber. snd (api_test now chamber)) nows chamber = chamber"
    by (induction nows) (simp_all add: api_test_snd)
  then show ?thesis
    by (simp add: api_test_snd)
qed

end
